theory Spec2Isabelle
  imports Main
begin

section \<open>Speech-to-text component: header parser, transcription endpoint, engine listing\<close>

text \<open>
  A shallow embedding of \<^verbatim>\<open>homeassistant/components/stt/__init__.py\<close>.
  Python text is modelled as \<^typ>\<open>string\<close>; a \<^typ>\<open>char\<close> stands for a code point
  below 256. Every \<^verbatim>\<open>raise\<close> of the source is a value on the left of a sum.
\<close>

subsection \<open>The string operations of Python that the parser uses\<close>

text \<open>
  \<^verbatim>\<open>str.isspace\<close> on one character: the white-space code points below 256.
\<close>

definition whitespace :: "char list" where
  "whitespace =
     [CHR 0x09, CHR 0x0A, CHR 0x0B, CHR 0x0C, CHR 0x0D,
      CHR 0x1C, CHR 0x1D, CHR 0x1E, CHR 0x1F, CHR 0x20, CHR 0x85, CHR 0xA0]"

definition isspace :: "char \<Rightarrow> bool" where
  "isspace c \<longleftrightarrow> c \<in> set whitespace"

text \<open>\<^verbatim>\<open>s.strip()\<close>: white space removed at both ends.\<close>

definition str_strip :: "string \<Rightarrow> string" where
  "str_strip s = rev (dropWhile isspace (rev (dropWhile isspace s)))"

text \<open>
  \<^verbatim>\<open>s.split(sep)\<close> for a separator of one character: the pieces between the
  separators, empty pieces kept, so that a string with \<open>n\<close> separators has \<open>n + 1\<close> pieces.
\<close>

function str_split :: "char \<Rightarrow> string \<Rightarrow> string list" where
  "str_split sep s =
     (case dropWhile (\<lambda>c. c \<noteq> sep) s of
        [] \<Rightarrow> [s]
      | _ # rest \<Rightarrow> takeWhile (\<lambda>c. c \<noteq> sep) s # str_split sep rest)"
  by pat_completeness auto
termination
proof (relation "measure (\<lambda>(sep, s). length s)")
  show "wf (measure (\<lambda>(sep, s). length s))"
    by simp
next
  fix sep :: char and s :: string and x rest
  assume "dropWhile (\<lambda>c. c \<noteq> sep) s = x # rest"
  then have "length rest < length (dropWhile (\<lambda>c. c \<noteq> sep) s)"
    by simp
  also have "\<dots> \<le> length s"
    by (rule length_dropWhile_le)
  finally show "((sep, rest), (sep, s)) \<in> measure (\<lambda>(sep, s). length s)"
    by simp
qed

declare str_split.simps [simp del]

text \<open>
  \<^verbatim>\<open>s.partition(sep)\<close> for a separator of one character: the part before the
  first separator, the separator, the part after it; without a separator the string
  itself and two empty strings.
\<close>

definition str_partition :: "char \<Rightarrow> string \<Rightarrow> string \<times> string \<times> string" where
  "str_partition sep s =
     (case dropWhile (\<lambda>c. c \<noteq> sep) s of
        [] \<Rightarrow> (s, [], [])
      | _ # after \<Rightarrow> (takeWhile (\<lambda>c. c \<noteq> sep) s, [sep], after))"


text \<open>\<^verbatim>\<open>str(n)\<close> for a natural number: its decimal digits.\<close>

fun str_nat :: "nat \<Rightarrow> string" where
  "str_nat n =
     (if n < 10 then [''0123456789'' ! n]
      else str_nat (n div 10) @ [''0123456789'' ! (n mod 10)])"

declare str_nat.simps [simp del]

subsection \<open>Data model\<close>

text \<open>
  The enums \<^verbatim>\<open>AudioFormats\<close>, \<^verbatim>\<open>AudioCodecs\<close>, \<^verbatim>\<open>AudioBitRates\<close>,
  \<^verbatim>\<open>AudioSampleRates\<close> and \<^verbatim>\<open>AudioChannels\<close> are imported from
  \<^verbatim>\<open>.const\<close>. Their members are a parameter of the model: for each enum the list
  of its legal values.
\<close>

record stt_const =
  AudioFormats :: "string list"
  AudioCodecs :: "string list"
  AudioBitRates :: "nat list"
  AudioSampleRates :: "nat list"
  AudioChannels :: "nat list"

text \<open>The legal values that the specification lists (section 6).\<close>

definition spec_const :: stt_const where
  "spec_const =
     \<lparr>AudioFormats = [''wav''], AudioCodecs = [''pcm''],
      AudioBitRates = [8, 16, 24, 32],
      AudioSampleRates = [8000, 16000, 44100, 48000],
      AudioChannels = [1, 2]\<rparr>"

record speech_metadata =
  language :: string
  format :: string
  codec :: string
  bit_rate :: nat
  sample_rate :: nat
  channel :: nat

datatype type_error = InvalidFieldValue string string

datatype exn = KeyError string | TypeError type_error | ValueError string

text \<open>
  Modelled from the spec: the text of the error of \<^verbatim>\<open>SpeechMetadata\<close> construction
  (class \<^verbatim>\<open>SpeechMetadata\<close> of \<^verbatim>\<open>.legacy\<close> is not among the sources), a message
  naming the offending field and value.
\<close>

fun str_type_error :: "type_error \<Rightarrow> string" where
  "str_type_error (InvalidFieldValue field val) =
     ''invalid value '' @ val @ '' for field '' @ field"

text \<open>
  Modelled from the spec: the construction of \<^verbatim>\<open>SpeechMetadata\<close> (class
  \<^verbatim>\<open>SpeechMetadata\<close> of \<^verbatim>\<open>.legacy\<close> is not among the sources). The language is a
  string; each other field must be one of its enum's legal values, in the exact
  spelling, and construction fails otherwise with an error that identifies the field
  and the value. The source catches that error as a \<^verbatim>\<open>TypeError\<close>.
\<close>

definition SpeechMetadata ::
  "stt_const \<Rightarrow> string \<Rightarrow> string \<Rightarrow> string \<Rightarrow> string \<Rightarrow> string \<Rightarrow> string \<Rightarrow> exn + speech_metadata"
where
  "SpeechMetadata K lang fmt cdc brate srate chan =
     (if fmt \<notin> set (AudioFormats K) then Inl (TypeError (InvalidFieldValue ''format'' fmt))
      else if cdc \<notin> set (AudioCodecs K) then Inl (TypeError (InvalidFieldValue ''codec'' cdc))
      else
       (case find (\<lambda>n. str_nat n = brate) (AudioBitRates K) of
          None \<Rightarrow> Inl (TypeError (InvalidFieldValue ''bit_rate'' brate))
        | Some b \<Rightarrow>
       (case find (\<lambda>n. str_nat n = srate) (AudioSampleRates K) of
          None \<Rightarrow> Inl (TypeError (InvalidFieldValue ''sample_rate'' srate))
        | Some s \<Rightarrow>
       (case find (\<lambda>n. str_nat n = chan) (AudioChannels K) of
          None \<Rightarrow> Inl (TypeError (InvalidFieldValue ''channel'' chan))
        | Some c \<Rightarrow>
            Inr \<lparr>language = lang, format = fmt, codec = cdc,
                 bit_rate = b, sample_rate = s, channel = c\<rparr>))))"

text \<open>
  A request: the value of each header under the name by which the handler reads it,
  and the body stream.
\<close>

record request =
  headers :: "string \<rightharpoonup> string"
  content :: string

datatype speech_result_state = SUCCESS | ERROR

record speech_result =
  result_text :: string
  result_state :: speech_result_state

text \<open>
  The interface of \<^verbatim>\<open>Provider\<close> (from \<^verbatim>\<open>.legacy\<close>) that the component uses: the
  six descriptors, the predicate \<^verbatim>\<open>check_metadata\<close> and the operation
  \<^verbatim>\<open>async_process_audio_stream\<close>, each supplied by the backend.
\<close>

record provider =
  supported_languages :: "string list"
  supported_formats :: "string list"
  supported_codecs :: "string list"
  supported_sample_rates :: "nat list"
  supported_bit_rates :: "nat list"
  supported_channels :: "nat list"
  check_metadata :: "speech_metadata \<Rightarrow> bool"
  async_process_audio_stream :: "speech_metadata \<Rightarrow> string \<Rightarrow> speech_result"

text \<open>
  The registry \<^verbatim>\<open>dict[str, Provider]\<close> is an association list in insertion order,
  which is the order in which Python iterates over a dictionary.
\<close>

type_synonym registry = "(string \<times> provider) list"

record speech_to_text_view =
  providers :: registry

text \<open>
  A message that passed the schema of the command: \<^verbatim>\<open>id\<close> and \<^verbatim>\<open>type\<close> are
  there, \<^verbatim>\<open>language\<close> is optional and a string when present.
\<close>

record ws_msg =
  msg_id :: int
  msg_type :: string
  msg_language :: "string option"

record engine =
  engine_id :: string
  language_supported :: bool

datatype message = result_message int "engine list"

subsection \<open>The metadata parser\<close>

definition fields :: "string list" where
  "fields = [''language'', ''format'', ''codec'', ''bit_rate'', ''sample_rate'', ''channel'']"

text \<open>
  The first loop of \<^verbatim>\<open>_metadata_from_header\<close>: every entry is trimmed and cut at
  its first \<open>=\<close>; a key outside \<open>fields\<close> raises, otherwise the value is stored under
  the key, replacing an earlier one.
\<close>

fun convert_header_data :: "string list \<Rightarrow> (string \<rightharpoonup> string) \<Rightarrow> exn + (string \<rightharpoonup> string)" where
  "convert_header_data [] args = Inr args"
| "convert_header_data (entry # data) args =
     (case str_partition CHR ''='' (str_strip entry) of
        (key, _, val) \<Rightarrow>
          if key \<notin> set fields then Inl (ValueError (''Invalid field '' @ key))
          else convert_header_data data (args(key \<mapsto> val)))"

text \<open>The second loop: the first field without a value raises.\<close>

fun require_fields :: "string list \<Rightarrow> (string \<rightharpoonup> string) \<Rightarrow> exn option" where
  "require_fields [] args = None"
| "require_fields (field # rest) args =
     (if args field = None
      then Some (ValueError (''Missing '' @ field @ '' in X-Speech-Content header''))
      else require_fields rest args)"

text \<open>\<^verbatim>\<open>args[key]\<close>: a missing key raises \<^verbatim>\<open>KeyError\<close>.\<close>

definition getitem :: "(string \<rightharpoonup> string) \<Rightarrow> string \<Rightarrow> exn + string" where
  "getitem args key = (case args key of None \<Rightarrow> Inl (KeyError key) | Some v \<Rightarrow> Inr v)"

text \<open>The last statement: the six values are read and the record is constructed.\<close>

definition construct :: "stt_const \<Rightarrow> (string \<rightharpoonup> string) \<Rightarrow> exn + speech_metadata" where
  "construct K args =
     (case getitem args ''language'' of Inl e \<Rightarrow> Inl e | Inr lang \<Rightarrow>
     (case getitem args ''format'' of Inl e \<Rightarrow> Inl e | Inr fmt \<Rightarrow>
     (case getitem args ''codec'' of Inl e \<Rightarrow> Inl e | Inr cdc \<Rightarrow>
     (case getitem args ''bit_rate'' of Inl e \<Rightarrow> Inl e | Inr brate \<Rightarrow>
     (case getitem args ''sample_rate'' of Inl e \<Rightarrow> Inl e | Inr srate \<Rightarrow>
     (case getitem args ''channel'' of Inl e \<Rightarrow> Inl e | Inr chan \<Rightarrow>
     (case SpeechMetadata K lang fmt cdc brate srate chan of
        Inl (TypeError err) \<Rightarrow>
          Inl (ValueError (''Wrong format of X-Speech-Content: '' @ str_type_error err))
      | Inl e \<Rightarrow> Inl e
      | Inr metadata \<Rightarrow> Inr metadata)))))))"

definition metadata_from_header :: "stt_const \<Rightarrow> request \<Rightarrow> exn + speech_metadata" where
  "metadata_from_header K req =
     (case headers req ''X-Speech-Content'' of
        None \<Rightarrow> Inl (ValueError ''Missing X-Speech-Content header'')
      | Some h \<Rightarrow>
          (case convert_header_data (str_split CHR '';'' h) Map.empty of
             Inl e \<Rightarrow> Inl e
           | Inr args \<Rightarrow>
               (case require_fields fields args of
                  Some e \<Rightarrow> Inl e
                | None \<Rightarrow> construct K args)))"

subsection \<open>Providers and the transcription endpoint\<close>

datatype http_exn =
    HTTPNotFound
  | HTTPBadRequest string
  | HTTPUnsupportedMediaType
  | Unhandled exn

text \<open>
  A call of a provider's \<^verbatim>\<open>async_process_audio_stream\<close>, with the name of the
  provider, the metadata and the body stream handed over. The endpoint threads the
  list of the calls made so far.
\<close>

datatype call = ProcessAudioStream string speech_metadata string

text \<open>
  \<^verbatim>\<open>SpeechToTextView.post\<close>. Only a \<^verbatim>\<open>ValueError\<close> of the parser is translated
  into \<^verbatim>\<open>HTTPBadRequest\<close>; the response on success is the result record as JSON.
\<close>

definition post ::
  "speech_to_text_view \<Rightarrow> stt_const \<Rightarrow> request \<Rightarrow> string \<Rightarrow> call list
     \<Rightarrow> (http_exn + speech_result) \<times> call list"
where
  "post self K req prov calls =
     (case map_of (providers self) prov of
        None \<Rightarrow> (Inl HTTPNotFound, calls)
      | Some stt_provider \<Rightarrow>
          (case metadata_from_header K req of
             Inl (ValueError err) \<Rightarrow> (Inl (HTTPBadRequest err), calls)
           | Inl e \<Rightarrow> (Inl (Unhandled e), calls)
           | Inr metadata \<Rightarrow>
               if \<not> check_metadata stt_provider metadata
               then (Inl HTTPUnsupportedMediaType, calls)
               else (Inr (async_process_audio_stream stt_provider metadata (content req)),
                     calls @ [ProcessAudioStream prov metadata (content req)])))"

subsection \<open>The engine listing command\<close>

text \<open>
  \<^verbatim>\<open>websocket_list_engines\<close>. The helper \<^verbatim>\<open>language_util.matches\<close> is not among
  the sources: the parameter \<open>matches\<close> is the truth value of its result. The
  connection is the list of the messages sent on it.
\<close>

definition websocket_list_engines ::
  "(string \<Rightarrow> string list \<Rightarrow> bool) \<Rightarrow> registry \<Rightarrow> message list \<Rightarrow> ws_msg
     \<Rightarrow> exn + message list"
where
  "websocket_list_engines matches legacy_providers connection msg =
     (case msg_language msg of
        None \<Rightarrow> Inl (KeyError ''language'')
      | Some lang \<Rightarrow>
          Inr (connection @
            [result_message (msg_id msg)
               (map (\<lambda>(eid, prov).
                       \<lparr>engine_id = eid,
                        language_supported = matches lang (supported_languages prov)\<rparr>)
                  legacy_providers)]))"

subsection \<open>Headers as lists of entries\<close>

text \<open>
  The entries of a header value, and the key and the value of an entry, as the parser
  cuts them: at every \<open>;\<close>, then, white space trimmed, at the first \<open>=\<close>.
\<close>

definition entries :: "string \<Rightarrow> string list" where
  "entries h = str_split CHR '';'' h"

definition entry_key :: "string \<Rightarrow> string" where
  "entry_key e = fst (str_partition CHR ''='' (str_strip e))"

definition entry_value :: "string \<Rightarrow> string" where
  "entry_value e = snd (snd (str_partition CHR ''='' (str_strip e)))"

text \<open>The value of the last entry with a given key, if there is one.\<close>

definition last_value :: "string \<Rightarrow> string \<rightharpoonup> string" where
  "last_value h = map_of (rev (map (\<lambda>e. (entry_key e, entry_value e)) (entries h)))"

text \<open>
  A value is legal for a field when it is the exact spelling of a member of the
  field's enum; every string is a legal language.
\<close>

definition legal_value :: "stt_const \<Rightarrow> string \<Rightarrow> string \<Rightarrow> bool" where
  "legal_value K k v =
     (if k = ''language'' then True
      else if k = ''format'' then v \<in> set (AudioFormats K)
      else if k = ''codec'' then v \<in> set (AudioCodecs K)
      else if k = ''bit_rate'' then v \<in> set (map str_nat (AudioBitRates K))
      else if k = ''sample_rate'' then v \<in> set (map str_nat (AudioSampleRates K))
      else if k = ''channel'' then v \<in> set (map str_nat (AudioChannels K))
      else False)"

text \<open>The field of a metadata record under its key, spelled as in a header.\<close>

definition field_text :: "speech_metadata \<Rightarrow> string \<Rightarrow> string" where
  "field_text m k =
     (if k = ''language'' then language m
      else if k = ''format'' then format m
      else if k = ''codec'' then codec m
      else if k = ''bit_rate'' then str_nat (bit_rate m)
      else if k = ''sample_rate'' then str_nat (sample_rate m)
      else if k = ''channel'' then str_nat (channel m)
      else [])"

text \<open>
  A header written out from its entries: each entry is a key, \<open>=\<close> and a value
  between two runs of white space, and the entries are joined by \<open>;\<close>.
\<close>

datatype entry = Entry (e_lead: string) (e_key: string) (e_value: string) (e_trail: string)

definition entry_text :: "entry \<Rightarrow> string" where
  "entry_text e = e_lead e @ e_key e @ ''='' @ e_value e @ e_trail e"

fun str_join :: "char \<Rightarrow> string list \<Rightarrow> string" where
  "str_join sep [] = []"
| "str_join sep [x] = x"
| "str_join sep (x # y # ys) = x @ sep # str_join sep (y # ys)"

definition header_text :: "entry list \<Rightarrow> string" where
  "header_text es = str_join CHR '';'' (map entry_text es)"

text \<open>
  An entry is well formed when its key is one of the six fields, its padding is white
  space, and its value has no \<open>;\<close> and does not end in white space.
\<close>

definition well_formed_entry :: "entry \<Rightarrow> bool" where
  "well_formed_entry e \<longleftrightarrow>
     list_all isspace (e_lead e) \<and> list_all isspace (e_trail e) \<and>
     e_key e \<in> set fields \<and>
     CHR '';'' \<notin> set (e_value e) \<and>
     (e_value e = [] \<or> \<not> isspace (last (e_value e)))"

definition written_value :: "entry list \<Rightarrow> string \<rightharpoonup> string" where
  "written_value es = map_of (rev (map (\<lambda>e. (e_key e, e_value e)) es))"

subsection \<open>Example inputs\<close>

text \<open>
  The header of the docstring of \<^verbatim>\<open>_metadata_from_header\<close>, the same header with
  the format \<open>ogg\<close>, and with the format given twice, \<open>ogg\<close> first and \<open>wav\<close> last.
\<close>

definition docstring_entries :: "entry list" where
  "docstring_entries =
     [Entry [] ''format'' ''wav'' [], Entry '' '' ''codec'' ''pcm'' [],
      Entry '' '' ''sample_rate'' ''16000'' [], Entry '' '' ''bit_rate'' ''16'' [],
      Entry '' '' ''channel'' ''1'' [], Entry '' '' ''language'' ''de_de'' []]"

definition ogg_entries :: "entry list" where
  "ogg_entries = Entry [] ''format'' ''ogg'' [] # tl docstring_entries"

definition repeated_entries :: "entry list" where
  "repeated_entries =
     Entry [] ''format'' ''ogg'' [] # Entry '' '' ''format'' ''wav'' [] # tl docstring_entries"

text \<open>The header of the docstring with the sample rate 8000.\<close>

definition low_rate_entries :: "entry list" where
  "low_rate_entries =
     [Entry [] ''format'' ''wav'' [], Entry '' '' ''codec'' ''pcm'' [],
      Entry '' '' ''sample_rate'' ''8000'' [], Entry '' '' ''bit_rate'' ''16'' [],
      Entry '' '' ''channel'' ''1'' [], Entry '' '' ''language'' ''de_de'' []]"

text \<open>
  A provider that supports exactly the values of the header of the docstring, with the
  check of section 4.2 of the specification, and a registry that holds it.
\<close>

definition mock_provider :: provider where
  "mock_provider =
     \<lparr>supported_languages = [''de_de''], supported_formats = [''wav''],
      supported_codecs = [''pcm''], supported_sample_rates = [16000],
      supported_bit_rates = [16], supported_channels = [1],
      check_metadata = (\<lambda>m. format m \<in> set [''wav''] \<and> codec m \<in> set [''pcm''] \<and>
         bit_rate m \<in> set [16] \<and> sample_rate m \<in> set [16000] \<and> channel m \<in> set [1]),
      async_process_audio_stream = (\<lambda>m stream. \<lparr>result_text = stream, result_state = SUCCESS\<rparr>)\<rparr>"

definition mock_view :: speech_to_text_view where
  "mock_view = \<lparr>providers = [(''mock'', mock_provider)]\<rparr>"

text \<open>
  A second provider, for another language, and a registry of the two; a matcher that
  accepts a language when it is in the list.
\<close>

definition english_provider :: provider where
  "english_provider = mock_provider\<lparr>supported_languages := [''en_us'']\<rparr>"

definition two_providers :: registry where
  "two_providers = [(''mock'', mock_provider), (''english'', english_provider)]"

definition exact_match :: "string \<Rightarrow> string list \<Rightarrow> bool" where
  "exact_match lang supported \<longleftrightarrow> lang \<in> set supported"

definition request_with :: "string \<Rightarrow> request" where
  "request_with h = \<lparr>headers = [''X-Speech-Content'' \<mapsto> h], content = ''audio''\<rparr>"

section \<open>Properties\<close>

subsection \<open>Splitting, trimming and cutting\<close>

lemma str_split_Nil: "str_split sep [] = [[]]"
  by (simp add: str_split.simps)

lemma str_split_Cons:
  "str_split sep (c # cs) =
     (if c = sep then [] # str_split sep cs
      else (c # hd (str_split sep cs)) # tl (str_split sep cs))"
proof (cases "c = sep")
  case True
  then show ?thesis
    by (subst str_split.simps) simp
next
  case False
  show ?thesis
  proof (cases "dropWhile (\<lambda>c. c \<noteq> sep) cs")
    case Nil
    have "str_split sep (c # cs) = [c # cs]"
      by (subst str_split.simps) (simp add: False Nil)
    moreover have "str_split sep cs = [cs]"
      by (subst str_split.simps) (simp add: Nil)
    ultimately show ?thesis
      using False by simp
  next
    case (Cons x rest)
    have "str_split sep (c # cs) =
        (c # takeWhile (\<lambda>c. c \<noteq> sep) cs) # str_split sep rest"
      by (subst str_split.simps) (simp add: False Cons)
    moreover have "str_split sep cs = takeWhile (\<lambda>c. c \<noteq> sep) cs # str_split sep rest"
      by (subst str_split.simps) (simp add: Cons)
    ultimately show ?thesis
      using False by simp
  qed
qed

lemma str_split_not_Nil: "str_split sep s \<noteq> []"
  by (cases s) (simp_all add: str_split_Nil str_split_Cons)

lemma str_split_no_sep: "sep \<notin> set w \<Longrightarrow> str_split sep w = [w]"
  by (induction w) (auto simp: str_split_Nil str_split_Cons)

lemma str_split_append:
  "sep \<notin> set w \<Longrightarrow> str_split sep (w @ sep # r) = w # str_split sep r"
  by (induction w) (auto simp: str_split_Cons)

lemma str_split_join:
  "xs \<noteq> [] \<Longrightarrow> \<forall>x\<in>set xs. sep \<notin> set x \<Longrightarrow> str_split sep (str_join sep xs) = xs"
  by (induction sep xs rule: str_join.induct) (simp_all add: str_split_no_sep str_split_append)

lemma str_strip_padded:
  assumes "list_all isspace l" and "list_all isspace r"
    and "s \<noteq> []" and "\<not> isspace (hd s)" and "\<not> isspace (last s)"
  shows "str_strip (l @ s @ r) = s"
proof -
  have "dropWhile isspace (l @ s @ r) = dropWhile isspace (s @ r)"
    using assms(1) by (simp add: list_all_iff)
  also have "\<dots> = s @ r"
    using assms(3,4) by (cases s) simp_all
  finally have 1: "dropWhile isspace (l @ s @ r) = s @ r" .
  have "dropWhile isspace (rev r @ rev s) = dropWhile isspace (rev s)"
    by (rule dropWhile_append2) (use assms(2) in \<open>simp add: list_all_iff\<close>)
  also have "\<dots> = rev s"
    using assms(3,5) by (cases s rule: rev_cases) simp_all
  finally show ?thesis
    by (simp add: str_strip_def 1)
qed

lemma str_partition_found:
  assumes "sep \<notin> set k"
  shows "str_partition sep (k @ sep # v) = (k, [sep], v)"
proof -
  have "dropWhile (\<lambda>c. c \<noteq> sep) (k @ sep # v) = sep # v"
    using assms by (induction k) auto
  moreover have "takeWhile (\<lambda>c. c \<noteq> sep) (k @ sep # v) = k"
    using assms by (induction k) auto
  ultimately show ?thesis
    by (simp add: str_partition_def)
qed

lemma convert_header_data_eq:
  "convert_header_data data args =
     (case find (\<lambda>e. entry_key e \<notin> set fields) data of
        Some e \<Rightarrow> Inl (ValueError (''Invalid field '' @ entry_key e))
      | None \<Rightarrow> Inr (args ++ map_of (rev (map (\<lambda>e. (entry_key e, entry_value e)) data))))"
proof (induction data arbitrary: args)
  case Nil
  then show ?case by simp
next
  case (Cons e data)
  obtain key mid val where p: "str_partition CHR ''='' (str_strip e) = (key, mid, val)"
    by (cases "str_partition CHR ''='' (str_strip e)") auto
  then have kv: "entry_key e = key" "entry_value e = val"
    by (simp_all add: entry_key_def entry_value_def)
  show ?case
  proof (cases "key \<in> set fields")
    case True
    then show ?thesis
      by (simp add: p kv Cons.IH split: option.split)
  next
    case False
    then show ?thesis
      by (simp add: p kv)
  qed
qed


lemma require_fields_None: "require_fields fs args = None \<longleftrightarrow> (\<forall>f\<in>set fs. args f \<noteq> None)"
  by (induction fs) auto

lemma require_fields_Some:
  "require_fields fs args = Some e \<Longrightarrow>
     \<exists>f\<in>set fs. args f = None \<and> e = ValueError (''Missing '' @ f @ '' in X-Speech-Content header'')"
  by (induction fs) (auto split: if_splits)

lemma metadata_from_header_eq:
  assumes "headers req ''X-Speech-Content'' = Some h"
  shows "metadata_from_header K req =
     (case find (\<lambda>e. entry_key e \<notin> set fields) (entries h) of
        Some e \<Rightarrow> Inl (ValueError (''Invalid field '' @ entry_key e))
      | None \<Rightarrow>
          (case require_fields fields (last_value h) of
             Some e \<Rightarrow> Inl e
           | None \<Rightarrow> construct K (last_value h)))"
  using assms
  by (simp add: metadata_from_header_def convert_header_data_eq entries_def [symmetric]
      last_value_def split: option.split)

lemma entry_key_Nil: "entry_key [] = []"
  by (simp add: entry_key_def str_strip_def str_partition_def)

lemma Nil_not_field: "[] \<notin> set fields"
  by (simp add: fields_def)

lemma split_trailing: "[] \<in> set (tl (str_split sep (a @ [sep])))"
  by (induction a)
    (auto simp: str_split_Cons str_split_Nil str_split_not_Nil intro: list.set_sel(2))

lemma split_adjacent: "[] \<in> set (tl (str_split sep (a @ sep # sep # b)))"
  by (induction a) (auto simp: str_split_Cons str_split_not_Nil intro: list.set_sel(2))

lemma entries_trailing: "[] \<in> set (entries (a @ '';''))"
  using split_trailing [of "CHR '';''" a]
  by (simp add: entries_def list.set_sel(2) str_split_not_Nil)

lemma entries_adjacent: "[] \<in> set (entries (a @ '';;'' @ b))"
  using split_adjacent [of "CHR '';''" a b]
  by (simp add: entries_def list.set_sel(2) str_split_not_Nil)

lemma find_first:
  "find P xs = Some x \<longleftrightarrow> (\<exists>pre post. xs = pre @ x # post \<and> (\<forall>y\<in>set pre. \<not> P y) \<and> P x)"
proof (induction xs)
  case Nil
  then show ?case by simp
next
  case (Cons a xs)
  show ?case
  proof (cases "P a")
    case True
    show ?thesis
    proof
      assume "find P (a # xs) = Some x"
      with True have "a = x" by simp
      with True have "a # xs = [] @ x # xs \<and> (\<forall>y\<in>set []. \<not> P y) \<and> P x" by simp
      then show "\<exists>pre post. a # xs = pre @ x # post \<and> (\<forall>y\<in>set pre. \<not> P y) \<and> P x" by blast
    next
      assume "\<exists>pre post. a # xs = pre @ x # post \<and> (\<forall>y\<in>set pre. \<not> P y) \<and> P x"
      then obtain pre post where *: "a # xs = pre @ x # post" "\<forall>y\<in>set pre. \<not> P y" "P x" by blast
      with True have "pre = []" by (cases pre) auto
      with * True show "find P (a # xs) = Some x" by simp
    qed
  next
    case False
    show ?thesis
    proof
      assume "find P (a # xs) = Some x"
      with False have "find P xs = Some x" by simp
      with Cons.IH obtain pre post where "xs = pre @ x # post" "\<forall>y\<in>set pre. \<not> P y" "P x" by blast
      with False have "a # xs = (a # pre) @ x # post \<and> (\<forall>y\<in>set (a # pre). \<not> P y) \<and> P x" by simp
      then show "\<exists>pre post. a # xs = pre @ x # post \<and> (\<forall>y\<in>set pre. \<not> P y) \<and> P x" by blast
    next
      assume "\<exists>pre post. a # xs = pre @ x # post \<and> (\<forall>y\<in>set pre. \<not> P y) \<and> P x"
      then obtain pre post where *: "a # xs = pre @ x # post" "\<forall>y\<in>set pre. \<not> P y" "P x" by blast
      with False obtain pre' where "pre = a # pre'" by (cases pre) auto
      with * have "xs = pre' @ x # post \<and> (\<forall>y\<in>set pre'. \<not> P y) \<and> P x" by simp
      with Cons.IH have "find P xs = Some x" by blast
      with False show "find P (a # xs) = Some x" by simp
    qed
  qed
qed

lemma find_exists: "x \<in> set xs \<Longrightarrow> P x \<Longrightarrow> \<exists>y. find P xs = Some y"
  by (cases "find P xs") (auto simp: find_None_iff)

subsection \<open>Construction and the parser as a whole\<close>

lemma find_spelling_None:
  "find (\<lambda>n. g n = v) xs = None \<longleftrightarrow> v \<notin> set (map g xs)"
  by (auto simp: find_None_iff)

lemma find_spelling_Some:
  "find (\<lambda>n. g n = v) xs = Some n \<Longrightarrow> g n = v \<and> v \<in> set (map g xs)"
  by (auto simp: find_Some_iff)

lemma SpeechMetadata_Inr:
  assumes "SpeechMetadata K l f c b s ch = Inr m"
  shows "language m = l \<and> format m = f \<and> codec m = c \<and> str_nat (bit_rate m) = b \<and>
     str_nat (sample_rate m) = s \<and> str_nat (channel m) = ch"
  using assms
  by (auto simp: SpeechMetadata_def split: if_splits option.splits dest: find_spelling_Some)

lemma SpeechMetadata_legal:
  assumes "legal_value K ''format'' f" and "legal_value K ''codec'' c"
    and "legal_value K ''bit_rate'' b" and "legal_value K ''sample_rate'' s"
    and "legal_value K ''channel'' ch"
  shows "\<exists>m. SpeechMetadata K l f c b s ch = Inr m"
proof -
  have "f \<in> set (AudioFormats K)" "c \<in> set (AudioCodecs K)"
    using assms(1,2) by (simp_all add: legal_value_def)
  moreover obtain nb where "find (\<lambda>n. str_nat n = b) (AudioBitRates K) = Some nb"
    using assms(3) find_spelling_None [of str_nat b "AudioBitRates K"]
    by (cases "find (\<lambda>n. str_nat n = b) (AudioBitRates K)") (auto simp: legal_value_def)
  moreover obtain ns where "find (\<lambda>n. str_nat n = s) (AudioSampleRates K) = Some ns"
    using assms(4) find_spelling_None [of str_nat s "AudioSampleRates K"]
    by (cases "find (\<lambda>n. str_nat n = s) (AudioSampleRates K)") (auto simp: legal_value_def)
  moreover obtain nc where "find (\<lambda>n. str_nat n = ch) (AudioChannels K) = Some nc"
    using assms(5) find_spelling_None [of str_nat ch "AudioChannels K"]
    by (cases "find (\<lambda>n. str_nat n = ch) (AudioChannels K)") (auto simp: legal_value_def)
  ultimately show ?thesis
    by (simp add: SpeechMetadata_def)
qed

lemma SpeechMetadata_Inl:
  assumes "SpeechMetadata K l f c b s ch = Inl e"
  shows "\<exists>fld w. (fld, w) \<in> set [(''format'', f), (''codec'', c), (''bit_rate'', b),
            (''sample_rate'', s), (''channel'', ch)] \<and>
          \<not> legal_value K fld w \<and> e = TypeError (InvalidFieldValue fld w)"
proof -
  consider (fmt) "f \<notin> set (AudioFormats K)"
    | (cdc) "f \<in> set (AudioFormats K)" "c \<notin> set (AudioCodecs K)"
    | (br) "f \<in> set (AudioFormats K)" "c \<in> set (AudioCodecs K)"
        "find (\<lambda>n. str_nat n = b) (AudioBitRates K) = None"
    | (sr) nb where "f \<in> set (AudioFormats K)" "c \<in> set (AudioCodecs K)"
        "find (\<lambda>n. str_nat n = b) (AudioBitRates K) = Some nb"
        "find (\<lambda>n. str_nat n = s) (AudioSampleRates K) = None"
    | (chn) nb ns where "f \<in> set (AudioFormats K)" "c \<in> set (AudioCodecs K)"
        "find (\<lambda>n. str_nat n = b) (AudioBitRates K) = Some nb"
        "find (\<lambda>n. str_nat n = s) (AudioSampleRates K) = Some ns"
        "find (\<lambda>n. str_nat n = ch) (AudioChannels K) = None"
    | (ok) nb ns nc where "f \<in> set (AudioFormats K)" "c \<in> set (AudioCodecs K)"
        "find (\<lambda>n. str_nat n = b) (AudioBitRates K) = Some nb"
        "find (\<lambda>n. str_nat n = s) (AudioSampleRates K) = Some ns"
        "find (\<lambda>n. str_nat n = ch) (AudioChannels K) = Some nc"
    by (cases "find (\<lambda>n. str_nat n = b) (AudioBitRates K)";
        cases "find (\<lambda>n. str_nat n = s) (AudioSampleRates K)";
        cases "find (\<lambda>n. str_nat n = ch) (AudioChannels K)") auto
  then show ?thesis
  proof cases
    case fmt
    then have "\<not> legal_value K ''format'' f"
      by (simp add: legal_value_def)
    moreover have "e = TypeError (InvalidFieldValue ''format'' f)"
      using assms fmt by (simp add: SpeechMetadata_def)
    ultimately show ?thesis by auto
  next
    case cdc
    then have "\<not> legal_value K ''codec'' c"
      by (simp add: legal_value_def)
    moreover have "e = TypeError (InvalidFieldValue ''codec'' c)"
      using assms cdc by (simp add: SpeechMetadata_def)
    ultimately show ?thesis by auto
  next
    case br
    have "b \<notin> set (map str_nat (AudioBitRates K))"
      using br(3) find_spelling_None [of str_nat b "AudioBitRates K"] by blast
    then have "\<not> legal_value K ''bit_rate'' b"
      by (simp add: legal_value_def)
    moreover have "e = TypeError (InvalidFieldValue ''bit_rate'' b)"
      using assms br by (simp add: SpeechMetadata_def)
    ultimately show ?thesis by auto
  next
    case sr
    have "s \<notin> set (map str_nat (AudioSampleRates K))"
      using sr(4) find_spelling_None [of str_nat s "AudioSampleRates K"] by blast
    then have "\<not> legal_value K ''sample_rate'' s"
      by (simp add: legal_value_def)
    moreover have "e = TypeError (InvalidFieldValue ''sample_rate'' s)"
      using assms sr by (simp add: SpeechMetadata_def)
    ultimately show ?thesis by auto
  next
    case chn
    have "ch \<notin> set (map str_nat (AudioChannels K))"
      using chn(5) find_spelling_None [of str_nat ch "AudioChannels K"] by blast
    then have "\<not> legal_value K ''channel'' ch"
      by (simp add: legal_value_def)
    moreover have "e = TypeError (InvalidFieldValue ''channel'' ch)"
      using assms chn by (simp add: SpeechMetadata_def)
    ultimately show ?thesis by auto
  next
    case ok
    then show ?thesis
      using assms by (simp add: SpeechMetadata_def)
  qed
qed


lemma construct_present:
  assumes "args ''language'' = Some l" and "args ''format'' = Some f"
    and "args ''codec'' = Some c" and "args ''bit_rate'' = Some b"
    and "args ''sample_rate'' = Some s" and "args ''channel'' = Some ch"
  shows "construct K args =
     (case SpeechMetadata K l f c b s ch of
        Inl (TypeError err) \<Rightarrow>
          Inl (ValueError (''Wrong format of X-Speech-Content: '' @ str_type_error err))
      | Inl e \<Rightarrow> Inl e
      | Inr metadata \<Rightarrow> Inr metadata)"
  by (simp add: construct_def getitem_def assms)

lemma all_fields_present:
  assumes "\<forall>k\<in>set fields. args k \<noteq> None"
  obtains l f c b s ch where "args ''language'' = Some l" "args ''format'' = Some f"
    "args ''codec'' = Some c" "args ''bit_rate'' = Some b"
    "args ''sample_rate'' = Some s" "args ''channel'' = Some ch"
  using assms by (auto simp: fields_def)

lemma construct_not_missing_header:
  "construct K args \<noteq> Inl (ValueError ''Missing X-Speech-Content header'')"
proof (cases "\<forall>k\<in>set fields. args k \<noteq> None")
  case True
  then obtain l f c b s ch where *: "args ''language'' = Some l" "args ''format'' = Some f"
    "args ''codec'' = Some c" "args ''bit_rate'' = Some b"
    "args ''sample_rate'' = Some s" "args ''channel'' = Some ch"
    by (rule all_fields_present)
  show ?thesis
  proof (cases "SpeechMetadata K l f c b s ch")
    case (Inl e)
    then obtain fld w where "e = TypeError (InvalidFieldValue fld w)"
      using SpeechMetadata_Inl by blast
    with Inl show ?thesis
      by (simp add: construct_present [OF *])
  next
    case (Inr m)
    then show ?thesis
      by (simp add: construct_present [OF *])
  qed
next
  case False
  then show ?thesis
    by (auto simp: construct_def getitem_def fields_def split: option.splits)
qed

lemma missing_field_not_missing_header:
  "k \<in> set fields \<Longrightarrow>
     ''Missing '' @ k @ '' in X-Speech-Content header'' \<noteq> ''Missing X-Speech-Content header''"
  by (auto simp: fields_def)

lemma parse_success:
  assumes "headers req ''X-Speech-Content'' = Some h"
    and "\<forall>e\<in>set (entries h). entry_key e \<in> set fields"
    and "\<forall>k\<in>set fields. \<exists>v. last_value h k = Some v \<and> legal_value K k v"
  shows "\<exists>m. metadata_from_header K req = Inr m \<and>
           (\<forall>k\<in>set fields. last_value h k = Some (field_text m k))"
proof -
  have n: "find (\<lambda>e. entry_key e \<notin> set fields) (entries h) = None"
    using assms(2) by (simp add: find_None_iff)
  have r: "require_fields fields (last_value h) = None"
    using assms(3) by (auto simp: require_fields_None)
  obtain l f c b s ch where *: "last_value h ''language'' = Some l"
    "last_value h ''format'' = Some f" "last_value h ''codec'' = Some c"
    "last_value h ''bit_rate'' = Some b" "last_value h ''sample_rate'' = Some s"
    "last_value h ''channel'' = Some ch"
    using assms(3) by (rule_tac all_fields_present [of "last_value h"]) auto
  have "legal_value K ''format'' f" "legal_value K ''codec'' c" "legal_value K ''bit_rate'' b"
    "legal_value K ''sample_rate'' s" "legal_value K ''channel'' ch"
    using assms(3) * by (auto simp: fields_def)
  then obtain m where m: "SpeechMetadata K l f c b s ch = Inr m"
    using SpeechMetadata_legal by blast
  have "metadata_from_header K req = Inr m"
    by (simp add: metadata_from_header_eq [OF assms(1)] n r construct_present [OF *] m)
  moreover have "\<forall>k\<in>set fields. last_value h k = Some (field_text m k)"
    using SpeechMetadata_Inr [OF m] * by (simp add: fields_def field_text_def)
  ultimately show ?thesis by blast
qed

lemma parse_invalid_value:
  assumes "headers req ''X-Speech-Content'' = Some h"
    and "\<forall>e\<in>set (entries h). entry_key e \<in> set fields"
    and "\<forall>k\<in>set fields. last_value h k \<noteq> None"
    and "k \<in> set fields" and "last_value h k = Some v" and "\<not> legal_value K k v"
  shows "\<exists>f w. f \<in> set fields \<and> last_value h f = Some w \<and> \<not> legal_value K f w \<and>
      metadata_from_header K req =
        Inl (ValueError (''Wrong format of X-Speech-Content: '' @
               str_type_error (InvalidFieldValue f w)))"
proof -
  have n: "find (\<lambda>e. entry_key e \<notin> set fields) (entries h) = None"
    using assms(2) by (simp add: find_None_iff)
  have r: "require_fields fields (last_value h) = None"
    using assms(3) by (simp add: require_fields_None)
  obtain l f c b s ch where *: "last_value h ''language'' = Some l"
    "last_value h ''format'' = Some f" "last_value h ''codec'' = Some c"
    "last_value h ''bit_rate'' = Some b" "last_value h ''sample_rate'' = Some s"
    "last_value h ''channel'' = Some ch"
    using assms(3) by (rule all_fields_present)
  have p: "metadata_from_header K req =
     (case SpeechMetadata K l f c b s ch of
        Inl (TypeError err) \<Rightarrow>
          Inl (ValueError (''Wrong format of X-Speech-Content: '' @ str_type_error err))
      | Inl e \<Rightarrow> Inl e
      | Inr metadata \<Rightarrow> Inr metadata)"
    by (simp add: metadata_from_header_eq [OF assms(1)] n r construct_present [OF *])
  show ?thesis
  proof (cases "SpeechMetadata K l f c b s ch")
    case (Inl e)
    then obtain fld w where fw: "(fld, w) \<in> set [(''format'', f), (''codec'', c),
        (''bit_rate'', b), (''sample_rate'', s), (''channel'', ch)]"
      "\<not> legal_value K fld w" "e = TypeError (InvalidFieldValue fld w)"
      using SpeechMetadata_Inl by blast
    from fw(1) * have "fld \<in> set fields \<and> last_value h fld = Some w"
      by (auto simp: fields_def)
    moreover have "metadata_from_header K req =
        Inl (ValueError (''Wrong format of X-Speech-Content: '' @
               str_type_error (InvalidFieldValue fld w)))"
      using p Inl fw(3) by simp
    ultimately show ?thesis
      using fw(2) by blast
  next
    case (Inr m)
    have "legal_value K ''language'' l"
      by (simp add: legal_value_def)
    moreover have "legal_value K ''format'' f \<and> legal_value K ''codec'' c \<and>
        legal_value K ''bit_rate'' b \<and> legal_value K ''sample_rate'' s \<and>
        legal_value K ''channel'' ch"
      using SpeechMetadata_Inr [OF Inr] Inr
      by (auto simp: legal_value_def SpeechMetadata_def
          split: if_splits option.splits dest: find_spelling_Some)
    ultimately have "legal_value K k v"
      using assms(4,5) * by (auto simp: fields_def)
    with assms(6) show ?thesis by simp
  qed
qed

subsection \<open>Headers written out from entries\<close>

lemma not_space: "\<not> isspace CHR '';''" "\<not> isspace CHR ''=''"
  by (simp_all add: isspace_def whitespace_def)

lemma isspace_not_semicolon: "list_all isspace l \<Longrightarrow> CHR '';'' \<notin> set l"
  using not_space(1) by (auto simp: list_all_iff)

lemma field_shape:
  assumes "k \<in> set fields"
  shows "k \<noteq> []" and "CHR ''='' \<notin> set k" and "CHR '';'' \<notin> set k"
  using assms by (auto simp: fields_def)

lemma field_hd:
  assumes "k \<in> set fields"
  shows "\<not> isspace (hd k)"
proof -
  have "hd k \<in> set ''lfcbs''"
    using assms by (auto simp: fields_def)
  then show ?thesis
    by (auto simp: isspace_def whitespace_def)
qed

lemma entry_text_no_semicolon:
  assumes "well_formed_entry e"
  shows "CHR '';'' \<notin> set (entry_text e)"
proof -
  have "CHR '';'' \<notin> set (e_lead e)" "CHR '';'' \<notin> set (e_trail e)"
    using assms by (simp_all add: well_formed_entry_def isspace_not_semicolon)
  moreover have "CHR '';'' \<notin> set (e_key e)" "CHR '';'' \<notin> set (e_value e)"
    using assms by (simp_all add: well_formed_entry_def field_shape(3))
  ultimately show ?thesis
    by (simp add: entry_text_def)
qed

lemma entries_header_text:
  assumes "es \<noteq> []" and "list_all well_formed_entry es"
  shows "entries (header_text es) = map entry_text es"
proof -
  have "map entry_text es \<noteq> []"
    using assms(1) by simp
  moreover have "\<forall>x\<in>set (map entry_text es). CHR '';'' \<notin> set x"
    using assms(2) by (auto simp: list_all_iff entry_text_no_semicolon)
  ultimately show ?thesis
    unfolding entries_def header_text_def by (rule str_split_join)
qed

lemma entry_text_parts:
  assumes "well_formed_entry e"
  shows "entry_key (entry_text e) = e_key e" and "entry_value (entry_text e) = e_value e"
proof -
  let ?s = "e_key e @ CHR ''='' # e_value e"
  have k: "e_key e \<in> set fields"
    using assms by (simp add: well_formed_entry_def)
  have v: "e_value e = [] \<or> \<not> isspace (last (e_value e))"
    using assms by (simp add: well_formed_entry_def)
  have 1: "?s \<noteq> []" by simp
  have 2: "\<not> isspace (hd ?s)"
    using field_shape(1) [OF k] field_hd [OF k] by simp
  have 3: "\<not> isspace (last ?s)"
    using v not_space(2) by (cases "e_value e = []") simp_all
  have 4: "list_all isspace (e_lead e)" and 5: "list_all isspace (e_trail e)"
    using assms by (simp_all add: well_formed_entry_def)
  have "str_strip (e_lead e @ ?s @ e_trail e) = ?s"
    using 4 5 1 2 3 by (rule str_strip_padded)
  then have "str_strip (entry_text e) = ?s"
    by (simp add: entry_text_def)
  moreover have "str_partition CHR ''='' ?s = (e_key e, ''='', e_value e)"
    using field_shape(2) [OF k] by (rule str_partition_found)
  ultimately show "entry_key (entry_text e) = e_key e"
    and "entry_value (entry_text e) = e_value e"
    by (simp_all add: entry_key_def entry_value_def)
qed

lemma last_value_header_text:
  assumes "es \<noteq> []" and "list_all well_formed_entry es"
  shows "last_value (header_text es) = written_value es"
proof -
  have "map (\<lambda>e. (entry_key e, entry_value e)) (map entry_text es) =
      map (\<lambda>e. (e_key e, e_value e)) es"
    unfolding map_map
  proof (rule map_cong [OF refl])
    fix e assume "e \<in> set es"
    with assms(2) have "well_formed_entry e"
      by (simp add: list_all_iff)
    then show "((\<lambda>e. (entry_key e, entry_value e)) \<circ> entry_text) e = (e_key e, e_value e)"
      by (simp add: entry_text_parts)
  qed
  then show ?thesis
    unfolding last_value_def written_value_def entries_header_text [OF assms]
    by (rule arg_cong)
qed

lemma keys_header_text:
  assumes "es \<noteq> []" and "list_all well_formed_entry es"
  shows "\<forall>e\<in>set (entries (header_text es)). entry_key e \<in> set fields"
proof
  fix x assume "x \<in> set (entries (header_text es))"
  then obtain e where e: "e \<in> set es" "x = entry_text e"
    unfolding entries_header_text [OF assms] by auto
  with assms(2) have w: "well_formed_entry e"
    by (simp add: list_all_iff)
  then have "e_key e \<in> set fields"
    by (simp add: well_formed_entry_def)
  with w e(2) show "entry_key x \<in> set fields"
    by (simp add: entry_text_parts(1))
qed

lemma written_value_Nil: "written_value [] k = None"
  by (simp add: written_value_def)

lemma parse_header_text:
  assumes "headers req ''X-Speech-Content'' = Some (header_text es)"
    and "list_all well_formed_entry es"
    and "\<forall>k\<in>set fields. \<exists>v. written_value es k = Some v \<and> legal_value K k v"
  shows "\<exists>m. metadata_from_header K req = Inr m \<and>
           (\<forall>k\<in>set fields. written_value es k = Some (field_text m k))"
proof -
  have "''language'' \<in> set fields"
    by (simp add: fields_def)
  with assms(3) have "written_value es ''language'' \<noteq> None"
    by fastforce
  then have ne: "es \<noteq> []"
    using written_value_Nil [of "''language''"] by (cases es) simp_all
  have lv: "last_value (header_text es) = written_value es"
    using ne assms(2) by (rule last_value_header_text)
  have "\<exists>m. metadata_from_header K req = Inr m \<and>
           (\<forall>k\<in>set fields. last_value (header_text es) k = Some (field_text m k))"
    using assms(1) keys_header_text [OF ne assms(2)]
  proof (rule parse_success)
    show "\<forall>k\<in>set fields. \<exists>v. last_value (header_text es) k = Some v \<and> legal_value K k v"
      unfolding lv by (rule assms(3))
  qed
  then show ?thesis
    unfolding lv .
qed

lemma written_value_last:
  assumes "e_key e \<notin> e_key ` set ys"
  shows "written_value (xs @ e # ys) (e_key e) = Some (e_value e)"
proof -
  have "e_key e \<notin> fst ` set (rev (map (\<lambda>e. (e_key e, e_value e)) ys))"
    using assms by (simp add: image_image)
  then have "map_of (rev (map (\<lambda>e. (e_key e, e_value e)) ys)) (e_key e) = None"
    by (rule map_of_eq_None_iff [THEN iffD2])
  then show ?thesis
    by (simp add: written_value_def map_add_def)
qed

lemma written_value_legal:
  assumes "\<forall>e\<in>set es. legal_value K (e_key e) (e_value e)"
    and "k \<in> e_key ` set es"
  shows "\<exists>v. written_value es k = Some v \<and> legal_value K k v"
proof -
  have "k \<in> fst ` set (rev (map (\<lambda>e. (e_key e, e_value e)) es))"
    using assms(2) by (simp add: image_image)
  then have "written_value es k \<noteq> None"
    unfolding written_value_def by (simp only: map_of_eq_None_iff not_not)
  then obtain v where v: "written_value es k = Some v"
    by blast
  then have "(k, v) \<in> set (rev (map (\<lambda>e. (e_key e, e_value e)) es))"
    unfolding written_value_def by (rule map_of_SomeD)
  then obtain e where "e \<in> set es" "k = e_key e" "v = e_value e"
    by (simp add: image_iff) blast
  with assms(1) have "legal_value K k v"
    by blast
  with v show ?thesis by blast
qed

subsection \<open>The parser on the example headers\<close>

lemma post_bad_request:
  assumes "map_of (providers self) prov = Some stt_provider"
    and "metadata_from_header K req = Inl (ValueError err)"
  shows "post self K req prov calls = (Inl (HTTPBadRequest err), calls)"
  using assms by (simp add: post_def)

lemma headers_request_with: "headers (request_with h) ''X-Speech-Content'' = Some h"
  by (simp add: request_with_def)

lemma parse_written:
  assumes "headers req ''X-Speech-Content'' = Some (header_text es)"
    and "es \<noteq> []" and "list_all well_formed_entry es"
    and "require_fields fields (written_value es) = None"
  shows "metadata_from_header K req = construct K (written_value es)"
proof -
  have "find (\<lambda>e. entry_key e \<notin> set fields) (entries (header_text es)) = None"
    using keys_header_text [OF assms(2,3)] by (simp add: find_None_iff)
  then show ?thesis
    by (simp add: metadata_from_header_eq [OF assms(1)]
        last_value_header_text [OF assms(2,3)] assms(4))
qed

lemma docstring_text:
  "header_text docstring_entries =
     ''format=wav; codec=pcm; sample_rate=16000; bit_rate=16; channel=1; language=de_de''"
  by (simp add: docstring_entries_def header_text_def entry_text_def)

lemma ogg_text:
  "header_text ogg_entries =
     ''format=ogg; codec=pcm; sample_rate=16000; bit_rate=16; channel=1; language=de_de''"
  by (simp add: ogg_entries_def docstring_entries_def header_text_def entry_text_def)

lemma repeated_text:
  "header_text repeated_entries =
     ''format=ogg; format=wav; codec=pcm; sample_rate=16000; bit_rate=16; channel=1; language=de_de''"
  by (simp add: repeated_entries_def docstring_entries_def header_text_def entry_text_def)

lemma space_is_space: "isspace CHR '' ''"
  by (simp add: isspace_def whitespace_def)

lemma digit_not_space:
  "\<not> isspace CHR ''v''" "\<not> isspace CHR ''m''" "\<not> isspace CHR ''0''" "\<not> isspace CHR ''6''"
  "\<not> isspace CHR ''1''" "\<not> isspace CHR ''e''" "\<not> isspace CHR ''g''"
  by (simp_all add: isspace_def whitespace_def)

lemma examples_well_formed:
  "list_all well_formed_entry docstring_entries"
  "list_all well_formed_entry ogg_entries"
  "list_all well_formed_entry repeated_entries"
  by (simp_all add: docstring_entries_def ogg_entries_def repeated_entries_def
      well_formed_entry_def fields_def space_is_space digit_not_space)

lemma examples_complete:
  "require_fields fields (written_value docstring_entries) = None"
  "require_fields fields (written_value ogg_entries) = None"
  "require_fields fields (written_value repeated_entries) = None"
  by (simp_all add: docstring_entries_def ogg_entries_def repeated_entries_def
      written_value_def fields_def)

lemma examples_construct:
  "construct spec_const (written_value docstring_entries) =
     Inr \<lparr>language = ''de_de'', format = ''wav'', codec = ''pcm'',
          bit_rate = 16, sample_rate = 16000, channel = 1\<rparr>"
  "construct spec_const (written_value repeated_entries) =
     Inr \<lparr>language = ''de_de'', format = ''wav'', codec = ''pcm'',
          bit_rate = 16, sample_rate = 16000, channel = 1\<rparr>"
  "construct spec_const (written_value ogg_entries) =
     Inl (ValueError ''Wrong format of X-Speech-Content: invalid value ogg for field format'')"
  by (simp_all add: construct_def getitem_def written_value_def docstring_entries_def
      repeated_entries_def ogg_entries_def SpeechMetadata_def spec_const_def str_nat.simps)

lemma examples_parse:
  "metadata_from_header spec_const (request_with (header_text docstring_entries)) =
     Inr \<lparr>language = ''de_de'', format = ''wav'', codec = ''pcm'',
          bit_rate = 16, sample_rate = 16000, channel = 1\<rparr>"
  "metadata_from_header spec_const (request_with (header_text repeated_entries)) =
     Inr \<lparr>language = ''de_de'', format = ''wav'', codec = ''pcm'',
          bit_rate = 16, sample_rate = 16000, channel = 1\<rparr>"
  "metadata_from_header spec_const (request_with (header_text ogg_entries)) =
     Inl (ValueError ''Wrong format of X-Speech-Content: invalid value ogg for field format'')"
proof -
  have ne: "docstring_entries \<noteq> []" "repeated_entries \<noteq> []" "ogg_entries \<noteq> []"
    by (simp_all add: docstring_entries_def repeated_entries_def ogg_entries_def)
  show "metadata_from_header spec_const (request_with (header_text docstring_entries)) =
     Inr \<lparr>language = ''de_de'', format = ''wav'', codec = ''pcm'',
          bit_rate = 16, sample_rate = 16000, channel = 1\<rparr>"
    unfolding examples_construct(1) [symmetric]
    using headers_request_with ne(1) examples_well_formed(1) examples_complete(1)
    by (rule parse_written)
  show "metadata_from_header spec_const (request_with (header_text repeated_entries)) =
     Inr \<lparr>language = ''de_de'', format = ''wav'', codec = ''pcm'',
          bit_rate = 16, sample_rate = 16000, channel = 1\<rparr>"
    unfolding examples_construct(2) [symmetric]
    using headers_request_with ne(2) examples_well_formed(3) examples_complete(3)
    by (rule parse_written)
  show "metadata_from_header spec_const (request_with (header_text ogg_entries)) =
     Inl (ValueError ''Wrong format of X-Speech-Content: invalid value ogg for field format'')"
    unfolding examples_construct(3) [symmetric]
    using headers_request_with ne(3) examples_well_formed(2) examples_complete(2)
    by (rule parse_written)
qed

section \<open>The claims\<close>

text \<open>
  C10: the unknown-key error takes precedence over the missing-key error. The entries
  are scanned in order, and the first entry whose key is not one of the six fields makes
  the parser fail with \<open>Invalid field <key>\<close>, whatever keys are missing; the result is
  never a \<open>Missing <field>\<close> error. The header \<open>foo=bar\<close> is the witness.
\<close>

theorem unknown_key_before_missing_key:
  assumes "headers req ''X-Speech-Content'' = Some h"
    and "find (\<lambda>e. entry_key e \<notin> set fields) (entries h) = Some e"
  shows "metadata_from_header K req = Inl (ValueError (''Invalid field '' @ entry_key e)) \<and>
    (\<forall>f. metadata_from_header K req \<noteq>
       Inl (ValueError (''Missing '' @ f @ '' in X-Speech-Content header'')))"
  using assms by (simp add: metadata_from_header_eq)

theorem unknown_key_before_missing_key_witness:
  "headers \<lparr>headers = [''X-Speech-Content'' \<mapsto> ''foo=bar''], content = []\<rparr> ''X-Speech-Content''
     = Some ''foo=bar'' \<and>
   find (\<lambda>e. entry_key e \<notin> set fields) (entries ''foo=bar'') = Some ''foo=bar'' \<and>
   metadata_from_header spec_const \<lparr>headers = [''X-Speech-Content'' \<mapsto> ''foo=bar''], content = []\<rparr>
     = Inl (ValueError ''Invalid field foo'')"
proof -
  let ?req = "\<lparr>headers = [''X-Speech-Content'' \<mapsto> ''foo=bar''], content = []\<rparr>"
  have h: "headers ?req ''X-Speech-Content'' = Some ''foo=bar''"
    by simp
  have f: "find (\<lambda>e. entry_key e \<notin> set fields) (entries ''foo=bar'') = Some ''foo=bar''"
    by code_simp
  have k: "entry_key ''foo=bar'' = ''foo''"
    by code_simp
  show ?thesis
    using unknown_key_before_missing_key [OF h f, of spec_const] h f k by simp
qed

text \<open>
  C7, as stated: every header with an entry whose key is outside the six fields fails
  with the unknown-field error naming that key. It fails for a header with two such
  entries: \<open>foo=1; bar=2\<close> has the entry \<open>bar=2\<close>, whose key \<open>bar\<close> is unknown, and the
  error names \<open>foo\<close>.
\<close>

theorem unknown_field_names_that_key_counterexample:
  "'' bar=2'' \<in> set (entries ''foo=1; bar=2'') \<and>
   entry_key '' bar=2'' = ''bar'' \<and> ''bar'' \<notin> set fields \<and>
   metadata_from_header spec_const
       \<lparr>headers = [''X-Speech-Content'' \<mapsto> ''foo=1; bar=2''], content = []\<rparr>
     = Inl (ValueError ''Invalid field foo'')"
proof -
  let ?req = "\<lparr>headers = [''X-Speech-Content'' \<mapsto> ''foo=1; bar=2''], content = []\<rparr>"
  have h: "headers ?req ''X-Speech-Content'' = Some ''foo=1; bar=2''"
    by simp
  have f: "find (\<lambda>e. entry_key e \<notin> set fields) (entries ''foo=1; bar=2'') = Some ''foo=1''"
    by code_simp
  have k: "entry_key ''foo=1'' = ''foo''"
    by code_simp
  have "metadata_from_header spec_const ?req = Inl (ValueError ''Invalid field foo'')"
    by (simp add: metadata_from_header_eq [OF h] f k)
  moreover have "'' bar=2'' \<in> set (entries ''foo=1; bar=2'')"
    by code_simp
  moreover have "entry_key '' bar=2'' = ''bar''"
    by code_simp
  moreover have "''bar'' \<notin> set fields"
    by (simp add: fields_def)
  ultimately show ?thesis
    by (intro conjI)
qed

text \<open>
  C7, amended: every header with an entry whose key is outside the six fields fails
  with the unknown-field error naming the key of the first such entry.
\<close>

theorem unknown_field_names_first_unknown_key:
  assumes "headers req ''X-Speech-Content'' = Some h"
    and "e \<in> set (entries h)" and "entry_key e \<notin> set fields"
  shows "\<exists>before e' after. entries h = before @ e' # after \<and>
      (\<forall>x\<in>set before. entry_key x \<in> set fields) \<and> entry_key e' \<notin> set fields \<and>
      metadata_from_header K req = Inl (ValueError (''Invalid field '' @ entry_key e'))"
proof -
  obtain e' where f: "find (\<lambda>e. entry_key e \<notin> set fields) (entries h) = Some e'"
    using find_exists [of e "entries h" "\<lambda>e. entry_key e \<notin> set fields"] assms(2,3) by blast
  then obtain before after where "entries h = before @ e' # after"
    "\<forall>x\<in>set before. entry_key x \<in> set fields" "entry_key e' \<notin> set fields"
    unfolding find_first by blast
  moreover have "metadata_from_header K req = Inl (ValueError (''Invalid field '' @ entry_key e'))"
    using assms(1) f by (simp add: metadata_from_header_eq)
  ultimately show ?thesis by blast
qed

theorem unknown_field_names_first_unknown_key_witness:
  "headers \<lparr>headers = [''X-Speech-Content'' \<mapsto> ''format=wav; foo=1; bar=2''], content = []\<rparr>
       ''X-Speech-Content'' = Some ''format=wav; foo=1; bar=2'' \<and>
   '' bar=2'' \<in> set (entries ''format=wav; foo=1; bar=2'') \<and>
   entry_key '' bar=2'' \<notin> set fields \<and>
   (\<exists>before e' after. entries ''format=wav; foo=1; bar=2'' = before @ e' # after \<and>
      (\<forall>x\<in>set before. entry_key x \<in> set fields) \<and> entry_key e' \<notin> set fields \<and>
      metadata_from_header spec_const
          \<lparr>headers = [''X-Speech-Content'' \<mapsto> ''format=wav; foo=1; bar=2''], content = []\<rparr>
        = Inl (ValueError (''Invalid field '' @ entry_key e')))"
proof -
  let ?h = "''format=wav; foo=1; bar=2''"
  let ?req = "\<lparr>headers = [''X-Speech-Content'' \<mapsto> ?h], content = []\<rparr>"
  have h: "headers ?req ''X-Speech-Content'' = Some ?h"
    by simp
  have e: "'' bar=2'' \<in> set (entries ?h)"
    by code_simp
  have k: "entry_key '' bar=2'' \<notin> set fields"
    by code_simp
  note r = unknown_field_names_first_unknown_key [OF h e k, of spec_const]
  show ?thesis
    apply (intro conjI)
       apply (rule h)
      apply (rule e)
     apply (rule k)
    apply (rule r)
    done
qed

text \<open>
  C9: a header that ends with a semicolon, or has two adjacent semicolons, fails: the
  empty entry has the empty key, which is not a field, so the parser fails with an
  unknown-field error. When every non-empty key of the header is a field (the other
  entries may supply all six), the error names the empty key.
\<close>

theorem empty_entry_fails:
  assumes "headers req ''X-Speech-Content'' = Some h"
    and "(h \<noteq> [] \<and> last h = CHR '';'') \<or> (\<exists>a b. h = a @ '';;'' @ b)"
  shows "(\<exists>k. k \<notin> set fields \<and>
            metadata_from_header K req = Inl (ValueError (''Invalid field '' @ k))) \<and>
         ((\<forall>e\<in>set (entries h). entry_key e \<noteq> [] \<longrightarrow> entry_key e \<in> set fields) \<longrightarrow>
            metadata_from_header K req = Inl (ValueError ''Invalid field ''))"
proof -
  have "[] \<in> set (entries h)"
  proof -
    { assume "h \<noteq> []" and "last h = CHR '';''"
      then have "h = butlast h @ '';''"
        using append_butlast_last_id [of h] by simp
      then have ?thesis
        using entries_trailing [of "butlast h"] by simp }
    moreover
    { assume "\<exists>a b. h = a @ '';;'' @ b"
      then have ?thesis
        using entries_adjacent by blast }
    ultimately show ?thesis
      using assms(2) by blast
  qed
  then obtain e where f: "find (\<lambda>e. entry_key e \<notin> set fields) (entries h) = Some e"
    using find_exists [of "[]" "entries h" "\<lambda>e. entry_key e \<notin> set fields"]
    by (auto simp: entry_key_Nil Nil_not_field)
  then have e: "e \<in> set (entries h)" "entry_key e \<notin> set fields"
    by (auto simp: find_Some_iff)
  have r: "metadata_from_header K req = Inl (ValueError (''Invalid field '' @ entry_key e))"
    using assms(1) f by (simp add: metadata_from_header_eq)
  show ?thesis
  proof (intro conjI impI)
    show "\<exists>k. k \<notin> set fields \<and>
        metadata_from_header K req = Inl (ValueError (''Invalid field '' @ k))"
      using r e(2) by blast
  next
    assume "\<forall>e\<in>set (entries h). entry_key e \<noteq> [] \<longrightarrow> entry_key e \<in> set fields"
    with e have "entry_key e = []" by blast
    with r show "metadata_from_header K req = Inl (ValueError ''Invalid field '')"
      by simp
  qed
qed

theorem empty_entry_fails_witness:
  "''channel=1;'' \<noteq> [] \<and> last ''channel=1;'' = CHR '';'' \<and>
   list_all (\<lambda>e. entry_key e = [] \<or> entry_key e \<in> set fields) (entries ''channel=1;'') \<and>
   metadata_from_header spec_const
       \<lparr>headers = [''X-Speech-Content'' \<mapsto> ''channel=1;''], content = []\<rparr>
     = Inl (ValueError ''Invalid field '') \<and>
   ''codec=pcm;;channel=1'' = ''codec=pcm'' @ '';;'' @ ''channel=1'' \<and>
   list_all (\<lambda>e. entry_key e = [] \<or> entry_key e \<in> set fields)
     (entries ''codec=pcm;;channel=1'') \<and>
   metadata_from_header spec_const
       \<lparr>headers = [''X-Speech-Content'' \<mapsto> ''codec=pcm;;channel=1''], content = []\<rparr>
     = Inl (ValueError ''Invalid field '')"
proof -
  let ?r1 = "\<lparr>headers = [''X-Speech-Content'' \<mapsto> ''channel=1;''], content = []\<rparr>"
  let ?r2 = "\<lparr>headers = [''X-Speech-Content'' \<mapsto> ''codec=pcm;;channel=1''], content = []\<rparr>"
  have h1: "headers ?r1 ''X-Speech-Content'' = Some ''channel=1;''"
    and h2: "headers ?r2 ''X-Speech-Content'' = Some ''codec=pcm;;channel=1''"
    by simp_all
  have t: "''channel=1;'' \<noteq> [] \<and> last ''channel=1;'' = CHR '';''"
    by simp
  have a: "''codec=pcm;;channel=1'' = ''codec=pcm'' @ '';;'' @ ''channel=1''"
    by simp
  have k1: "\<forall>e\<in>set (entries ''channel=1;''). entry_key e \<noteq> [] \<longrightarrow> entry_key e \<in> set fields"
    by code_simp
  have k2: "\<forall>e\<in>set (entries ''codec=pcm;;channel=1'').
      entry_key e \<noteq> [] \<longrightarrow> entry_key e \<in> set fields"
    by code_simp
  have l1: "list_all (\<lambda>e. entry_key e = [] \<or> entry_key e \<in> set fields) (entries ''channel=1;'')"
    by code_simp
  have l2: "list_all (\<lambda>e. entry_key e = [] \<or> entry_key e \<in> set fields)
      (entries ''codec=pcm;;channel=1'')"
    by code_simp
  have c1: "(''channel=1;'' \<noteq> [] \<and> last ''channel=1;'' = CHR '';'') \<or>
      (\<exists>a b. ''channel=1;'' = a @ '';;'' @ b)"
    using t by (rule disjI1)
  have c2: "(''codec=pcm;;channel=1'' \<noteq> [] \<and> last ''codec=pcm;;channel=1'' = CHR '';'') \<or>
      (\<exists>a b. ''codec=pcm;;channel=1'' = a @ '';;'' @ b)"
    by (rule disjI2, rule exI [of _ "''codec=pcm''"], rule exI [of _ "''channel=1''"], rule a)
  have r1: "metadata_from_header spec_const ?r1 = Inl (ValueError ''Invalid field '')"
    by (rule empty_entry_fails [OF h1 c1, of spec_const, THEN conjunct2, THEN mp, OF k1])
  have r2: "metadata_from_header spec_const ?r2 = Inl (ValueError ''Invalid field '')"
    by (rule empty_entry_fails [OF h2 c2, of spec_const, THEN conjunct2, THEN mp, OF k2])
  show ?thesis
    apply (intro conjI)
          apply (rule t [THEN conjunct1])
         apply (rule t [THEN conjunct2])
        apply (rule l1)
       apply (rule r1)
      apply (rule a)
     apply (rule l2)
    apply (rule r2)
    done
qed

text \<open>
  C6: without the header the parser fails with \<open>Missing X-Speech-Content header\<close>; no
  request that has the header, whatever its value, produces that error, so the failure
  is distinguishable from every other one; the empty header value fails with
  \<open>Invalid field\<close> and the empty key. Neither case yields a metadata record.
\<close>

theorem missing_header_is_distinct:
  "(headers req ''X-Speech-Content'' = None \<longrightarrow>
      metadata_from_header K req = Inl (ValueError ''Missing X-Speech-Content header'')) \<and>
   (\<forall>h. headers req ''X-Speech-Content'' = Some h \<longrightarrow>
      metadata_from_header K req \<noteq> Inl (ValueError ''Missing X-Speech-Content header'')) \<and>
   (headers req ''X-Speech-Content'' = Some [] \<longrightarrow>
      metadata_from_header K req = Inl (ValueError ''Invalid field ''))"
proof (intro conjI allI impI)
  assume "headers req ''X-Speech-Content'' = None"
  then show "metadata_from_header K req = Inl (ValueError ''Missing X-Speech-Content header'')"
    by (simp add: metadata_from_header_def)
next
  fix h assume h: "headers req ''X-Speech-Content'' = Some h"
  show "metadata_from_header K req \<noteq> Inl (ValueError ''Missing X-Speech-Content header'')"
  proof (cases "find (\<lambda>e. entry_key e \<notin> set fields) (entries h)")
    case (Some e)
    then show ?thesis
      by (simp add: metadata_from_header_eq [OF h])
  next
    case None
    show ?thesis
    proof (cases "require_fields fields (last_value h)")
      case (Some e)
      then obtain f where "f \<in> set fields"
        "e = ValueError (''Missing '' @ f @ '' in X-Speech-Content header'')"
        using require_fields_Some by blast
      then have "e \<noteq> ValueError ''Missing X-Speech-Content header''"
        using missing_field_not_missing_header [of f] by simp
      then show ?thesis
        by (simp add: metadata_from_header_eq [OF h] None Some)
    next
      case n: None
      show ?thesis
        by (simp add: metadata_from_header_eq [OF h] None n construct_not_missing_header)
    qed
  qed
next
  assume h: "headers req ''X-Speech-Content'' = Some []"
  have "find (\<lambda>e. entry_key e \<notin> set fields) (entries []) = Some []"
    by (simp add: entries_def str_split_Nil entry_key_Nil Nil_not_field)
  then show "metadata_from_header K req = Inl (ValueError ''Invalid field '')"
    by (simp add: metadata_from_header_eq [OF h] entry_key_Nil)
qed

theorem missing_header_is_distinct_witness:
  "headers \<lparr>headers = Map.empty, content = []\<rparr> ''X-Speech-Content'' = None \<and>
   metadata_from_header spec_const \<lparr>headers = Map.empty, content = []\<rparr>
     = Inl (ValueError ''Missing X-Speech-Content header'') \<and>
   headers \<lparr>headers = [''X-Speech-Content'' \<mapsto> []], content = []\<rparr> ''X-Speech-Content''
     = Some [] \<and>
   metadata_from_header spec_const \<lparr>headers = [''X-Speech-Content'' \<mapsto> []], content = []\<rparr>
     = Inl (ValueError ''Invalid field '') \<and>
   metadata_from_header spec_const \<lparr>headers = [''X-Speech-Content'' \<mapsto> []], content = []\<rparr>
     \<noteq> Inl (ValueError ''Missing X-Speech-Content header'')"
proof -
  let ?r0 = "\<lparr>headers = Map.empty, content = []\<rparr>"
  let ?r1 = "\<lparr>headers = [''X-Speech-Content'' \<mapsto> []], content = []\<rparr>"
  have h0: "headers ?r0 ''X-Speech-Content'' = None"
    by simp
  have h1: "headers ?r1 ''X-Speech-Content'' = Some []"
    by simp
  note t0 = missing_header_is_distinct [of ?r0 spec_const]
  note t1 = missing_header_is_distinct [of ?r1 spec_const]
  show ?thesis
    apply (intro conjI)
        apply (rule h0)
       apply (rule t0 [THEN conjunct1, THEN mp, OF h0])
      apply (rule h1)
     apply (rule t1 [THEN conjunct2, THEN conjunct2, THEN mp, OF h1])
    apply (rule t1 [THEN conjunct2, THEN conjunct1, THEN spec, THEN mp, OF h1])
    done
qed

text \<open>
  C3, as stated: every header whose entries use only the six recognized keys, with some
  value outside its field's enum, fails at the construction of the metadata with the
  invalid-value error. Two headers refute it. In \<open>format=ogg\<close> the only key is
  recognized and \<open>ogg\<close> is not a legal format, but the check for missing fields comes
  first and the error is \<open>Missing language\<close>. In the header with \<open>format=ogg\<close> followed
  by \<open>format=wav\<close> and the five other fields the value \<open>ogg\<close> is overwritten and
  parsing succeeds.
\<close>

theorem invalid_value_always_rejected_counterexample:
  "map entry_key (entries ''format=ogg'') = [''format''] \<and> ''format'' \<in> set fields \<and>
   map entry_value (entries ''format=ogg'') = [''ogg''] \<and>
   \<not> legal_value spec_const ''format'' ''ogg'' \<and>
   metadata_from_header spec_const (request_with ''format=ogg'') =
     Inl (ValueError ''Missing language in X-Speech-Content header'') \<and>
   header_text repeated_entries =
     ''format=ogg; format=wav; codec=pcm; sample_rate=16000; bit_rate=16; channel=1; language=de_de'' \<and>
   metadata_from_header spec_const (request_with (header_text repeated_entries)) =
     Inr \<lparr>language = ''de_de'', format = ''wav'', codec = ''pcm'',
          bit_rate = 16, sample_rate = 16000, channel = 1\<rparr>"
proof -
  have k: "map entry_key (entries ''format=ogg'') = [''format'']"
    by code_simp
  have v: "map entry_value (entries ''format=ogg'') = [''ogg'']"
    by code_simp
  have f: "''format'' \<in> set fields"
    by (simp add: fields_def)
  have l: "\<not> legal_value spec_const ''format'' ''ogg''"
    by (simp add: legal_value_def spec_const_def)
  have n: "find (\<lambda>e. entry_key e \<notin> set fields) (entries ''format=ogg'') = None"
    by code_simp
  have r: "require_fields fields (last_value ''format=ogg'') =
      Some (ValueError ''Missing language in X-Speech-Content header'')"
    by code_simp
  have p: "metadata_from_header spec_const (request_with ''format=ogg'') =
      Inl (ValueError ''Missing language in X-Speech-Content header'')"
    by (simp add: metadata_from_header_eq [OF headers_request_with] n r)
  show ?thesis
    apply (intro conjI)
          apply (rule k)
         apply (rule f)
        apply (rule v)
       apply (rule l)
      apply (rule p)
     apply (rule repeated_text)
    apply (rule examples_parse(2))
    done
qed

text \<open>
  C3, amended: for every header whose entries use only the six recognized keys, in which
  all six keys appear, and in which the last value of some field is not legal for it,
  parsing fails at the construction of the metadata with the invalid-value error naming
  a field and its last value, that value being illegal for the field; the endpoint
  answers 400 with that message and calls no provider.
\<close>

theorem invalid_value_rejected:
  assumes "headers req ''X-Speech-Content'' = Some h"
    and "\<forall>e\<in>set (entries h). entry_key e \<in> set fields"
    and "\<forall>k\<in>set fields. last_value h k \<noteq> None"
    and "k \<in> set fields" and "last_value h k = Some v" and "\<not> legal_value K k v"
  shows "\<exists>f w. f \<in> set fields \<and> last_value h f = Some w \<and> \<not> legal_value K f w \<and>
      metadata_from_header K req =
        Inl (ValueError (''Wrong format of X-Speech-Content: '' @
               str_type_error (InvalidFieldValue f w))) \<and>
      (\<forall>self prov stt_provider calls.
          map_of (providers self) prov = Some stt_provider \<longrightarrow>
          post self K req prov calls =
            (Inl (HTTPBadRequest (''Wrong format of X-Speech-Content: '' @
                    str_type_error (InvalidFieldValue f w))), calls))"
proof -
  obtain f w where fw: "f \<in> set fields" "last_value h f = Some w" "\<not> legal_value K f w"
    "metadata_from_header K req =
        Inl (ValueError (''Wrong format of X-Speech-Content: '' @
               str_type_error (InvalidFieldValue f w)))"
    using parse_invalid_value [OF assms] by blast
  have "\<forall>self prov stt_provider calls.
          map_of (providers self) prov = Some stt_provider \<longrightarrow>
          post self K req prov calls =
            (Inl (HTTPBadRequest (''Wrong format of X-Speech-Content: '' @
                    str_type_error (InvalidFieldValue f w))), calls)"
    using post_bad_request [OF _ fw(4)] by blast
  with fw show ?thesis
    by blast
qed

theorem invalid_value_rejected_witness:
  "header_text ogg_entries =
     ''format=ogg; codec=pcm; sample_rate=16000; bit_rate=16; channel=1; language=de_de'' \<and>
   headers (request_with (header_text ogg_entries)) ''X-Speech-Content''
     = Some (header_text ogg_entries) \<and>
   list_all (\<lambda>e. entry_key e \<in> set fields) (entries (header_text ogg_entries)) \<and>
   list_all (\<lambda>k. last_value (header_text ogg_entries) k \<noteq> None) fields \<and>
   ''format'' \<in> set fields \<and>
   last_value (header_text ogg_entries) ''format'' = Some ''ogg'' \<and>
   \<not> legal_value spec_const ''format'' ''ogg'' \<and>
   map_of (providers mock_view) ''mock'' = Some mock_provider \<and>
   (\<exists>f w. f \<in> set fields \<and> last_value (header_text ogg_entries) f = Some w \<and>
      \<not> legal_value spec_const f w \<and>
      metadata_from_header spec_const (request_with (header_text ogg_entries)) =
        Inl (ValueError (''Wrong format of X-Speech-Content: '' @
               str_type_error (InvalidFieldValue f w))) \<and>
      post mock_view spec_const (request_with (header_text ogg_entries)) ''mock'' [] =
        (Inl (HTTPBadRequest (''Wrong format of X-Speech-Content: '' @
                str_type_error (InvalidFieldValue f w))), []))"
proof -
  let ?h = "header_text ogg_entries"
  have ne: "ogg_entries \<noteq> []"
    by (simp add: ogg_entries_def)
  note lv = last_value_header_text [OF ne examples_well_formed(2)]
  have 1: "headers (request_with ?h) ''X-Speech-Content'' = Some ?h"
    by (rule headers_request_with)
  have 2: "\<forall>e\<in>set (entries ?h). entry_key e \<in> set fields"
    using ne examples_well_formed(2) by (rule keys_header_text)
  have 3: "\<forall>k\<in>set fields. last_value ?h k \<noteq> None"
    unfolding lv by (simp add: ogg_entries_def docstring_entries_def written_value_def fields_def)
  have 4: "''format'' \<in> set fields"
    by (simp add: fields_def)
  have 5: "last_value ?h ''format'' = Some ''ogg''"
    unfolding lv by (simp add: ogg_entries_def docstring_entries_def written_value_def)
  have 6: "\<not> legal_value spec_const ''format'' ''ogg''"
    by (simp add: legal_value_def spec_const_def)
  have 7: "map_of (providers mock_view) ''mock'' = Some mock_provider"
    by (simp add: mock_view_def)
  obtain f w where fw: "f \<in> set fields" "last_value ?h f = Some w"
    "\<not> legal_value spec_const f w"
    "metadata_from_header spec_const (request_with ?h) =
        Inl (ValueError (''Wrong format of X-Speech-Content: '' @
               str_type_error (InvalidFieldValue f w)))"
    and p: "\<forall>self prov stt_provider calls.
          map_of (providers self) prov = Some stt_provider \<longrightarrow>
          post self spec_const (request_with ?h) prov calls =
            (Inl (HTTPBadRequest (''Wrong format of X-Speech-Content: '' @
                    str_type_error (InvalidFieldValue f w))), calls)"
    using invalid_value_rejected [OF 1 2 3 4 5 6] by blast
  have 8: "post mock_view spec_const (request_with ?h) ''mock'' [] =
        (Inl (HTTPBadRequest (''Wrong format of X-Speech-Content: '' @
                str_type_error (InvalidFieldValue f w))), [])"
    using p 7 by blast
  have "\<exists>f w. f \<in> set fields \<and> last_value ?h f = Some w \<and>
      \<not> legal_value spec_const f w \<and>
      metadata_from_header spec_const (request_with ?h) =
        Inl (ValueError (''Wrong format of X-Speech-Content: '' @
               str_type_error (InvalidFieldValue f w))) \<and>
      post mock_view spec_const (request_with ?h) ''mock'' [] =
        (Inl (HTTPBadRequest (''Wrong format of X-Speech-Content: '' @
                str_type_error (InvalidFieldValue f w))), [])"
    using fw 8 by blast
  moreover have "list_all (\<lambda>e. entry_key e \<in> set fields) (entries ?h)"
    unfolding list_all_iff by (rule 2)
  moreover have "list_all (\<lambda>k. last_value ?h k \<noteq> None) fields"
    unfolding list_all_iff by (rule 3)
  ultimately show ?thesis
    using ogg_text 1 4 5 6 7 by (intro conjI)
qed

text \<open>
  C4: a header written as \<open>key=value\<close> entries joined by \<open>;\<close>, each entry with one of
  the six keys and a legal value for it, white space allowed around an entry, in which
  all six keys appear, parses; every field of the record is the value written for its
  key (the last one, should the key be repeated), the numeric fields in their decimal
  spelling.
\<close>

theorem well_formed_header_parses:
  assumes "headers req ''X-Speech-Content'' = Some (header_text es)"
    and "list_all well_formed_entry es"
    and "\<forall>e\<in>set es. legal_value K (e_key e) (e_value e)"
    and "set fields \<subseteq> e_key ` set es"
  shows "\<exists>m. metadata_from_header K req = Inr m \<and>
      written_value es ''language'' = Some (language m) \<and>
      written_value es ''format'' = Some (format m) \<and>
      written_value es ''codec'' = Some (codec m) \<and>
      written_value es ''bit_rate'' = Some (str_nat (bit_rate m)) \<and>
      written_value es ''sample_rate'' = Some (str_nat (sample_rate m)) \<and>
      written_value es ''channel'' = Some (str_nat (channel m))"
proof -
  have "\<forall>k\<in>set fields. \<exists>v. written_value es k = Some v \<and> legal_value K k v"
  proof
    fix k assume "k \<in> set fields"
    with assms(4) have "k \<in> e_key ` set es"
      by blast
    with assms(3) show "\<exists>v. written_value es k = Some v \<and> legal_value K k v"
      by (rule written_value_legal)
  qed
  with assms(1,2) obtain m where m: "metadata_from_header K req = Inr m"
    "\<forall>k\<in>set fields. written_value es k = Some (field_text m k)"
    using parse_header_text by blast
  from m(2) have "written_value es ''language'' = Some (language m)"
    "written_value es ''format'' = Some (format m)"
    "written_value es ''codec'' = Some (codec m)"
    "written_value es ''bit_rate'' = Some (str_nat (bit_rate m))"
    "written_value es ''sample_rate'' = Some (str_nat (sample_rate m))"
    "written_value es ''channel'' = Some (str_nat (channel m))"
    by (simp_all add: fields_def field_text_def)
  with m(1) show ?thesis
    by blast
qed

lemma docstring_legal:
  "\<forall>e\<in>set docstring_entries. legal_value spec_const (e_key e) (e_value e)"
  by (simp add: docstring_entries_def legal_value_def spec_const_def str_nat.simps)

lemma docstring_keys: "set fields \<subseteq> e_key ` set docstring_entries"
  by (simp add: docstring_entries_def fields_def)

theorem well_formed_header_parses_witness:
  "header_text docstring_entries =
     ''format=wav; codec=pcm; sample_rate=16000; bit_rate=16; channel=1; language=de_de'' \<and>
   headers (request_with (header_text docstring_entries)) ''X-Speech-Content''
     = Some (header_text docstring_entries) \<and>
   list_all well_formed_entry docstring_entries \<and>
   list_all (\<lambda>e. legal_value spec_const (e_key e) (e_value e)) docstring_entries \<and>
   set fields \<subseteq> e_key ` set docstring_entries \<and>
   (\<exists>m. metadata_from_header spec_const (request_with (header_text docstring_entries)) = Inr m \<and>
      written_value docstring_entries ''language'' = Some (language m) \<and>
      written_value docstring_entries ''format'' = Some (format m) \<and>
      written_value docstring_entries ''codec'' = Some (codec m) \<and>
      written_value docstring_entries ''bit_rate'' = Some (str_nat (bit_rate m)) \<and>
      written_value docstring_entries ''sample_rate'' = Some (str_nat (sample_rate m)) \<and>
      written_value docstring_entries ''channel'' = Some (str_nat (channel m)))"
  apply (intro conjI)
       apply (rule docstring_text)
      apply (rule headers_request_with)
     apply (rule examples_well_formed(1))
    apply (simp only: list_all_iff, rule docstring_legal)
   apply (rule docstring_keys)
  apply (rule well_formed_header_parses [OF headers_request_with examples_well_formed(1)
        docstring_legal docstring_keys])
  done

text \<open>
  C8: a header in which a recognized key appears more than once, with all six keys
  present and a legal last value for each, parses; the field of the repeated key is the
  value of its last occurrence. A duplicate is never an error.
\<close>

theorem repeated_key_last_wins:
  assumes "headers req ''X-Speech-Content'' = Some (header_text (xs @ e1 # ys @ e2 # zs))"
    and "e_key e1 = e_key e2" and "e_key e2 \<notin> e_key ` set zs"
    and "list_all well_formed_entry (xs @ e1 # ys @ e2 # zs)"
    and "\<forall>k\<in>set fields. \<exists>v. written_value (xs @ e1 # ys @ e2 # zs) k = Some v \<and>
           legal_value K k v"
  shows "\<exists>m. metadata_from_header K req = Inr m \<and> field_text m (e_key e2) = e_value e2"
proof -
  let ?es = "xs @ e1 # ys @ e2 # zs"
  obtain m where m: "metadata_from_header K req = Inr m"
    "\<forall>k\<in>set fields. written_value ?es k = Some (field_text m k)"
    using parse_header_text [OF assms(1,4,5)] by blast
  have "well_formed_entry e2"
    using assms(4) by (simp add: list_all_iff)
  then have k: "e_key e2 \<in> set fields"
    by (simp add: well_formed_entry_def)
  have "written_value ((xs @ e1 # ys) @ e2 # zs) (e_key e2) = Some (e_value e2)"
    using assms(3) by (rule written_value_last)
  then have "written_value ?es (e_key e2) = Some (e_value e2)"
    by simp
  with m(2) k have "field_text m (e_key e2) = e_value e2"
    by fastforce
  with m(1) show ?thesis
    by blast
qed

theorem repeated_key_last_wins_witness:
  "header_text repeated_entries =
     ''format=ogg; format=wav; codec=pcm; sample_rate=16000; bit_rate=16; channel=1; language=de_de'' \<and>
   repeated_entries =
     [] @ Entry [] ''format'' ''ogg'' [] # [] @ Entry '' '' ''format'' ''wav'' [] #
       tl docstring_entries \<and>
   headers (request_with (header_text repeated_entries)) ''X-Speech-Content''
     = Some (header_text repeated_entries) \<and>
   e_key (Entry [] ''format'' ''ogg'' []) = e_key (Entry '' '' ''format'' ''wav'' []) \<and>
   e_key (Entry '' '' ''format'' ''wav'' []) \<notin> e_key ` set (tl docstring_entries) \<and>
   list_all well_formed_entry repeated_entries \<and>
   list_all (\<lambda>k. \<exists>v. written_value repeated_entries k = Some v \<and>
      legal_value spec_const k v) fields \<and>
   (\<exists>m. metadata_from_header spec_const (request_with (header_text repeated_entries)) = Inr m \<and>
      field_text m ''format'' = ''wav'')"
proof -
  let ?e1 = "Entry [] ''format'' ''ogg'' []"
  let ?e2 = "Entry '' '' ''format'' ''wav'' []"
  let ?zs = "tl docstring_entries"
  have r: "repeated_entries = [] @ ?e1 # [] @ ?e2 # ?zs"
    by (simp add: repeated_entries_def)
  have h: "headers (request_with (header_text repeated_entries)) ''X-Speech-Content''
      = Some (header_text repeated_entries)"
    by (rule headers_request_with)
  have k: "e_key ?e1 = e_key ?e2"
    by simp
  have z: "e_key ?e2 \<notin> e_key ` set ?zs"
    by (simp add: docstring_entries_def)
  have l: "\<forall>k\<in>set fields. \<exists>v. written_value repeated_entries k = Some v \<and>
      legal_value spec_const k v"
    by (simp add: repeated_entries_def docstring_entries_def written_value_def fields_def
        legal_value_def spec_const_def str_nat.simps)
  have "\<exists>m. metadata_from_header spec_const (request_with (header_text repeated_entries)) = Inr m \<and>
      field_text m (e_key ?e2) = e_value ?e2"
    using h k z examples_well_formed(3) l unfolding r by (rule repeated_key_last_wins)
  then have c: "\<exists>m. metadata_from_header spec_const
        (request_with (header_text repeated_entries)) = Inr m \<and>
      field_text m ''format'' = ''wav''"
    by simp
  show ?thesis
    apply (intro conjI)
           apply (rule repeated_text)
          apply (rule r)
         apply (rule h)
        apply (rule k)
       apply (rule z)
      apply (rule examples_well_formed(3))
     apply (simp only: list_all_iff, rule l)
    apply (rule c)
    done
qed

text \<open>
  C2: for a known provider and a header that parses, when the provider's
  \<open>check_metadata\<close> is false the endpoint raises \<open>HTTPUnsupportedMediaType\<close> and the list
  of the calls of \<open>async_process_audio_stream\<close> is what it was: the operation is not
  invoked and the body is not handed over.
\<close>

theorem unsupported_metadata_rejected:
  assumes "map_of (providers self) prov = Some stt_provider"
    and "metadata_from_header K req = Inr metadata"
    and "\<not> check_metadata stt_provider metadata"
  shows "post self K req prov calls = (Inl HTTPUnsupportedMediaType, calls)"
  using assms by (simp add: post_def)

lemma low_rate_parse:
  "metadata_from_header spec_const (request_with (header_text low_rate_entries)) =
     Inr \<lparr>language = ''de_de'', format = ''wav'', codec = ''pcm'',
          bit_rate = 16, sample_rate = 8000, channel = 1\<rparr>"
proof -
  have ne: "low_rate_entries \<noteq> []"
    by (simp add: low_rate_entries_def)
  have w: "list_all well_formed_entry low_rate_entries"
    by (simp add: low_rate_entries_def well_formed_entry_def fields_def space_is_space
        digit_not_space)
  have r: "require_fields fields (written_value low_rate_entries) = None"
    by (simp add: low_rate_entries_def written_value_def fields_def)
  have c: "construct spec_const (written_value low_rate_entries) =
     Inr \<lparr>language = ''de_de'', format = ''wav'', codec = ''pcm'',
          bit_rate = 16, sample_rate = 8000, channel = 1\<rparr>"
    by (simp add: construct_def getitem_def written_value_def low_rate_entries_def
        SpeechMetadata_def spec_const_def str_nat.simps)
  show ?thesis
    unfolding c [symmetric] using headers_request_with ne w r by (rule parse_written)
qed

theorem unsupported_metadata_rejected_witness:
  "header_text low_rate_entries =
     ''format=wav; codec=pcm; sample_rate=8000; bit_rate=16; channel=1; language=de_de'' \<and>
   map_of (providers mock_view) ''mock'' = Some mock_provider \<and>
   metadata_from_header spec_const (request_with (header_text low_rate_entries)) =
     Inr \<lparr>language = ''de_de'', format = ''wav'', codec = ''pcm'',
          bit_rate = 16, sample_rate = 8000, channel = 1\<rparr> \<and>
   \<not> check_metadata mock_provider
       \<lparr>language = ''de_de'', format = ''wav'', codec = ''pcm'',
        bit_rate = 16, sample_rate = 8000, channel = 1\<rparr> \<and>
   post mock_view spec_const (request_with (header_text low_rate_entries)) ''mock'' [] =
     (Inl HTTPUnsupportedMediaType, [])"
proof -
  have t: "header_text low_rate_entries =
      ''format=wav; codec=pcm; sample_rate=8000; bit_rate=16; channel=1; language=de_de''"
    by (simp add: low_rate_entries_def header_text_def entry_text_def)
  have p: "map_of (providers mock_view) ''mock'' = Some mock_provider"
    by (simp add: mock_view_def)
  have c: "\<not> check_metadata mock_provider
       \<lparr>language = ''de_de'', format = ''wav'', codec = ''pcm'',
        bit_rate = 16, sample_rate = 8000, channel = 1\<rparr>"
    by (simp add: mock_provider_def)
  show ?thesis
    apply (intro conjI)
        apply (rule t)
       apply (rule p)
      apply (rule low_rate_parse)
     apply (rule c)
    apply (rule unsupported_metadata_rejected [OF p low_rate_parse c])
    done
qed

text \<open>
  C5: when the message carries a language, the command sends one reply, with the
  identifier of the message, holding one entry for every provider of the registry, in
  the order of the registry; the entry of a provider has its identifier and the result
  of the matcher on the language and the provider's supported languages.
\<close>

theorem list_engines_one_entry_per_provider:
  assumes "msg_language msg = Some lang"
  shows "\<exists>es. websocket_list_engines matches reg conn msg =
        Inr (conn @ [result_message (msg_id msg) es]) \<and>
      length es = length reg \<and>
      map engine_id es = map fst reg \<and>
      map language_supported es =
        map (\<lambda>(eid, prov). matches lang (supported_languages prov)) reg"
proof -
  let ?es = "map (\<lambda>(eid, prov).
      \<lparr>engine_id = eid, language_supported = matches lang (supported_languages prov)\<rparr>) reg"
  have "websocket_list_engines matches reg conn msg =
      Inr (conn @ [result_message (msg_id msg) ?es])"
    using assms by (simp add: websocket_list_engines_def)
  moreover have "length ?es = length reg"
    by simp
  moreover have "map engine_id ?es = map fst reg"
    by (induction reg) auto
  moreover have "map language_supported ?es =
      map (\<lambda>(eid, prov). matches lang (supported_languages prov)) reg"
    by (induction reg) auto
  ultimately show ?thesis
    by blast
qed

theorem list_engines_one_entry_per_provider_witness:
  "msg_language \<lparr>msg_id = 7, msg_type = ''stt/engine/list'', msg_language = Some ''de_de''\<rparr>
     = Some ''de_de'' \<and>
   websocket_list_engines exact_match two_providers []
       \<lparr>msg_id = 7, msg_type = ''stt/engine/list'', msg_language = Some ''de_de''\<rparr> =
     Inr [result_message 7
           [\<lparr>engine_id = ''mock'', language_supported = True\<rparr>,
            \<lparr>engine_id = ''english'', language_supported = False\<rparr>]]"
proof -
  let ?msg = "\<lparr>msg_id = 7, msg_type = ''stt/engine/list'', msg_language = Some ''de_de''\<rparr>"
  have l: "msg_language ?msg = Some ''de_de''"
    by simp
  obtain es where es: "websocket_list_engines exact_match two_providers [] ?msg =
        Inr ([] @ [result_message (msg_id ?msg) es])"
    "length es = length two_providers"
    "map engine_id es = map fst two_providers"
    "map language_supported es =
        map (\<lambda>(eid, prov). exact_match ''de_de'' (supported_languages prov)) two_providers"
    using list_engines_one_entry_per_provider [OF l, of exact_match two_providers "[]"]
    by blast
  from es(2) obtain a b where ab: "es = [a, b]"
    by (auto simp: two_providers_def length_Suc_conv)
  have "a = \<lparr>engine_id = ''mock'', language_supported = True\<rparr>"
    "b = \<lparr>engine_id = ''english'', language_supported = False\<rparr>"
    using es(3,4) unfolding ab
    by (simp_all add: two_providers_def exact_match_def mock_provider_def english_provider_def)
  with es(1) ab l show ?thesis
    by simp
qed

text \<open>
  C1: a message without the key \<open>language\<close>, which the schema of the command accepts.
  The handler reads \<open>msg["language"]\<close> and raises \<open>KeyError\<close>; no reply is sent, for any
  registry.
\<close>

theorem list_engines_without_language_raises:
  "websocket_list_engines matches reg conn
      \<lparr>msg_id = 1, msg_type = ''stt/engine/list'', msg_language = None\<rparr> =
     Inl (KeyError ''language'')"
  by (simp add: websocket_list_engines_def)

end
